theory Spec2Isabelle
  imports Main "HOL-Library.Word"
begin

section \<open>The Android composite gadget driver (drivers/usb/gadget/android.c)\<close>

text \<open>
  A shallow embedding of the control plane of \<^verbatim>\<open>android.c\<close>: the registry of function
  modules and its completeness gate (\<^verbatim>\<open>android_register_function\<close>,
  \<^verbatim>\<open>android_bind_config\<close>, \<^verbatim>\<open>bind_functions\<close>), the product id selection
  (\<^verbatim>\<open>get_product_id\<close>), the setup request dispatch (\<^verbatim>\<open>android_setup_config\<close>) and
  the runtime toggle (\<^verbatim>\<open>android_enable_function\<close>).

  Conventions. An array that the C code walks with a count (\<^verbatim>\<open>char **functions\<close> with
  \<^verbatim>\<open>num_functions\<close>) is a list together with the count; the loop
  \<^verbatim>\<open>for (i = 0; i < count; i++)\<close> visits the first \<open>count\<close> cells, \<open>take (nat count)\<close>
  of the list (the platform data supplies arrays of the stated length; a read past the
  end of the array is not modelled). A pointer that may be \<^verbatim>\<open>NULL\<close> is an \<open>option\<close>, and
  dereferencing \<^verbatim>\<open>NULL\<close> is the error value \<open>NullDeref\<close>. \<^verbatim>\<open>strcmp(a, b) == 0\<close> is
  equality of strings. A C \<^verbatim>\<open>int\<close> that is only stored and compared is an \<open>int\<close>; the
  one counter that is incremented, \<^verbatim>\<open>_registered_function_count\<close>, is a 32 bit word.
\<close>

subsection \<open>C truth values\<close>

text \<open>The C operator \<^verbatim>\<open>!\<close>; \<^verbatim>\<open>!!x\<close> is \<open>c_not (c_not x)\<close>.\<close>

definition c_not :: "int \<Rightarrow> int" where
  "c_not x = (if x = 0 then 1 else 0)"

subsection \<open>Data\<close>

text \<open>
  The five fields of \<^verbatim>\<open>struct usb_ctrlrequest\<close> (linux/usb/ch9.h). The 16 bit fields
  are little endian on the wire; the model keeps their values.
\<close>

record usb_ctrlrequest =
  bRequestType :: "8 word"
  bRequest :: "8 word"
  wValue :: "16 word"
  wIndex :: "16 word"
  wLength :: "16 word"

text \<open>
  \<^verbatim>\<open>struct usb_function\<close> (linux/usb/composite.h), the fields this file reads:
  the name, the flag \<^verbatim>\<open>disabled\<close> (zero when the function is enabled) and the optional
  \<^verbatim>\<open>setup\<close> handler (the field \<open>setup_fn\<close>), a function pointer that may be
  \<^verbatim>\<open>NULL\<close>. A handler is given the request it is passed and returns a C \<^verbatim>\<open>int\<close>.
\<close>

record usb_function =
  name :: string
  disabled :: int
  setup_fn :: "(usb_ctrlrequest \<Rightarrow> int) option"

text \<open>\<^verbatim>\<open>struct android_usb_product\<close> (linux/usb/android_composite.h).\<close>

record android_usb_product =
  p_product_id :: int
  p_num_functions :: int
  p_functions :: "string list"

text \<open>
  \<^verbatim>\<open>struct android_usb_function\<close>: the name and the \<^verbatim>\<open>bind_config\<close> callback, which
  is opaque here and identified by a number.
\<close>

record android_usb_function =
  af_name :: string
  af_bind_config :: nat

text \<open>The fields of \<^verbatim>\<open>struct usb_device_descriptor\<close> that the toggle writes.\<close>

record usb_device_descriptor =
  idProduct :: "16 word"
  bDeviceClass :: "8 word"

record usb_composite_dev =
  desc :: usb_device_descriptor

text \<open>The address of a \<^verbatim>\<open>struct usb_configuration\<close>.\<close>

type_synonym config_ref = nat

text \<open>\<^verbatim>\<open>struct android_dev\<close> (the version and the wake lock are left out;
  \<open>dev_functions\<close> is the field \<^verbatim>\<open>functions\<close>).\<close>

record android_dev =
  cdev :: "usb_composite_dev option"
  config :: "config_ref option"
  num_products :: int
  products :: "android_usb_product list option"
  num_functions :: int
  dev_functions :: "string list"
  product_id :: int

subsection \<open>Product id selection\<close>

text \<open>
  \<^verbatim>\<open>product_has_function\<close>: 1 when the name of \<open>f\<close> is among the first
  \<^verbatim>\<open>p->num_functions\<close> names of the product, else 0.
\<close>

fun has_function_loop :: "string list \<Rightarrow> string \<Rightarrow> int" where
  "has_function_loop [] nm = 0"
| "has_function_loop (x # xs) nm = (if nm = x then 1 else has_function_loop xs nm)"

definition product_has_function :: "android_usb_product \<Rightarrow> usb_function \<Rightarrow> int" where
  "product_has_function p f =
     has_function_loop (take (nat (p_num_functions p)) (p_functions p)) (name f)"

text \<open>
  \<^verbatim>\<open>product_matches_functions\<close>: walks \<^verbatim>\<open>android_config_driver.functions\<close> (the
  parameter \<open>fs\<close>) and returns 0 at the first function \<open>f\<close> with
  \<^verbatim>\<open>product_has_function(p, f) == !!f->disabled\<close>, else 1.
\<close>

fun product_matches_functions :: "android_usb_product \<Rightarrow> usb_function list \<Rightarrow> int" where
  "product_matches_functions p [] = 1"
| "product_matches_functions p (f # fs) =
     (if product_has_function p f = c_not (c_not (disabled f)) then 0
      else product_matches_functions p fs)"

text \<open>
  \<^verbatim>\<open>get_product_id\<close>: the loop returns at the first product that matches; when it
  runs out, or when \<^verbatim>\<open>dev->products\<close> is \<^verbatim>\<open>NULL\<close>, the default \<^verbatim>\<open>dev->product_id\<close>.
\<close>

fun product_id_loop :: "android_usb_product list \<Rightarrow> usb_function list \<Rightarrow> int option" where
  "product_id_loop [] fs = None"
| "product_id_loop (p # ps) fs =
     (if product_matches_functions p fs \<noteq> 0 then Some (p_product_id p)
      else product_id_loop ps fs)"

definition get_product_id :: "android_dev \<Rightarrow> usb_function list \<Rightarrow> int" where
  "get_product_id dev fs =
     (case products dev of
        None \<Rightarrow> product_id dev
      | Some ps \<Rightarrow>
          (case product_id_loop (take (nat (num_products dev)) ps) fs of
             Some i \<Rightarrow> i
           | None \<Rightarrow> product_id dev))"

text \<open>
  The matching rule in the words of the specification: every function known to the
  system is enabled exactly when the profile lists it.
\<close>

definition profile_matches :: "android_usb_product \<Rightarrow> usb_function list \<Rightarrow> bool" where
  "profile_matches p fs =
     list_all (\<lambda>f. (name f \<in> set (take (nat (p_num_functions p)) (p_functions p)))
                      = (disabled f = 0)) fs"

subsection \<open>Setup request dispatch\<close>

text \<open>
  \<^verbatim>\<open>struct usb_configuration\<close>, the fields the dispatch reads: the number of
  interfaces in use and the array of pointers to their functions.
\<close>

record usb_configuration =
  next_interface_id :: nat
  interface :: "usb_function list"

text \<open>The errno value of \<^verbatim>\<open>EOPNOTSUPP\<close> (asm-generic/errno.h).\<close>

definition EOPNOTSUPP :: int where
  "EOPNOTSUPP = 95"

text \<open>
  The memory of one call of \<^verbatim>\<open>android_setup_config\<close>: the caller's request
  \<^verbatim>\<open>*ctrl\<close>, the local copy \<^verbatim>\<open>tmp_ctrl\<close>, the local \<^verbatim>\<open>ret\<close>, and the handlers invoked
  so far, each with the index of its interface and the request it was passed.
\<close>

record setup_frame =
  caller_ctrl :: usb_ctrlrequest
  tmp_ctrl :: usb_ctrlrequest
  ret :: int
  consulted :: "(nat \<times> usb_ctrlrequest) list"

text \<open>
  The loop body at interface \<open>i\<close>: an interface without handler is skipped; otherwise
  \<^verbatim>\<open>tmp_ctrl.wIndex = cpu_to_le16(i)\<close>, the handler is called on \<^verbatim>\<open>&tmp_ctrl\<close>, and a
  result \<^verbatim>\<open>ret >= 0\<close> returns at once.
\<close>

fun setup_loop :: "usb_function list \<Rightarrow> nat \<Rightarrow> setup_frame \<Rightarrow> setup_frame" where
  "setup_loop [] i fr = fr"
| "setup_loop (f # fs) i fr =
     (case setup_fn f of
        None \<Rightarrow> setup_loop fs (Suc i) fr
      | Some h \<Rightarrow>
          (let fr1 = fr\<lparr>tmp_ctrl := (tmp_ctrl fr)\<lparr>wIndex := word_of_nat i\<rparr>\<rparr>;
               fr2 = fr1\<lparr>ret := h (tmp_ctrl fr1),
                         consulted := consulted fr1 @ [(i, tmp_ctrl fr1)]\<rparr>
           in if 0 \<le> ret fr2 then fr2 else setup_loop fs (Suc i) fr2))"

text \<open>
  \<^verbatim>\<open>android_setup_config\<close>: \<^verbatim>\<open>ret\<close> starts as \<^verbatim>\<open>-EOPNOTSUPP\<close>, \<^verbatim>\<open>tmp_ctrl\<close> as a
  copy of \<^verbatim>\<open>*ctrl\<close>; the value returned is the field \<open>ret\<close> of the final frame.
\<close>

definition android_setup_config :: "usb_configuration \<Rightarrow> usb_ctrlrequest \<Rightarrow> setup_frame" where
  "android_setup_config c ctrl =
     setup_loop (take (next_interface_id c) (interface c)) 0
       \<lparr>caller_ctrl = ctrl, tmp_ctrl = ctrl, ret = - EOPNOTSUPP, consulted = []\<rparr>"

text \<open>
  The dispatch in the words of the specification. \<open>handlers_from i fs\<close> lists the
  interfaces that have a handler, in index order, each with its index; \<open>answers\<close> is
  what each of them returns for the request; \<open>dispatch_result\<close> picks the first
  non-negative answer, else the last answer, else the unsupported-request error.
\<close>

fun handlers_from :: "nat \<Rightarrow> usb_function list \<Rightarrow> (nat \<times> (usb_ctrlrequest \<Rightarrow> int)) list" where
  "handlers_from i [] = []"
| "handlers_from i (f # fs) =
     (case setup_fn f of
        None \<Rightarrow> handlers_from (Suc i) fs
      | Some h \<Rightarrow> (i, h) # handlers_from (Suc i) fs)"

definition handlers :: "usb_configuration \<Rightarrow> (nat \<times> (usb_ctrlrequest \<Rightarrow> int)) list" where
  "handlers c = handlers_from 0 (take (next_interface_id c) (interface c))"

definition answer :: "usb_ctrlrequest \<Rightarrow> nat \<times> (usb_ctrlrequest \<Rightarrow> int) \<Rightarrow> int" where
  "answer ctrl ih = snd ih (ctrl\<lparr>wIndex := word_of_nat (fst ih)\<rparr>)"

definition answers :: "usb_configuration \<Rightarrow> usb_ctrlrequest \<Rightarrow> int list" where
  "answers c ctrl = map (answer ctrl) (handlers c)"

definition dispatch_result :: "int list \<Rightarrow> int" where
  "dispatch_result rs =
     (case find (\<lambda>r. 0 \<le> r) rs of
        Some r \<Rightarrow> r
      | None \<Rightarrow> if rs = [] then - EOPNOTSUPP else last rs)"

text \<open>
  The handlers the specification has consulted: those before the first non-negative
  answer, and the one that gave it.
\<close>

definition dispatch_consulted :: "usb_configuration \<Rightarrow> usb_ctrlrequest \<Rightarrow> nat list" where
  "dispatch_consulted c ctrl =
     map fst (take (Suc (length (takeWhile (\<lambda>r. r < 0) (answers c ctrl)))) (handlers c))"

subsection \<open>The driver's state\<close>

text \<open>
  The calls the driver makes to code outside this file, in the order it makes them:
  the log lines, the \<^verbatim>\<open>bind_config\<close> callback of a function module with the
  configuration it is passed, and \<^verbatim>\<open>usb_composite_force_reset\<close> with the handle it is
  passed. \<open>Bind_functions\<close> marks each entry into \<^verbatim>\<open>bind_functions\<close>. What the
  callees do in turn lies outside this file and is not modelled.
\<close>

datatype call =
    Pr_info_register string
  | Bind_functions
  | Bind_config android_usb_function "config_ref option"
  | Pr_err_not_found string
  | Usb_composite_force_reset "usb_composite_dev option"

text \<open>
  \<open>NullDeref\<close>: a \<^verbatim>\<open>NULL\<close> pointer is dereferenced. \<open>BadPointer\<close>: the function
  passed to \<^verbatim>\<open>android_enable_function\<close> is not one of the configuration's.
\<close>

datatype error = NullDeref | BadPointer

text \<open>
  The globals of the file: \<^verbatim>\<open>_android_dev\<close>, \<^verbatim>\<open>device_desc\<close>, the list
  \<^verbatim>\<open>_functions\<close>, \<^verbatim>\<open>_registered_function_count\<close> (a C \<^verbatim>\<open>int\<close>, whose increment wraps
  at 32 bits and which is read as a signed value), and the list
  \<^verbatim>\<open>android_config_driver.functions\<close>; and the calls made so far.
\<close>

record state =
  g_android_dev :: "android_dev option"
  device_desc :: usb_device_descriptor
  g_functions :: "android_usb_function list"
  g_registered_function_count :: "32 word"
  config_functions :: "usb_function list"
  calls :: "call list"

subsection \<open>Registration and the completeness gate\<close>

text \<open>\<^verbatim>\<open>get_function\<close>: the first registered module of that name, or \<^verbatim>\<open>NULL\<close>.\<close>

fun get_function :: "android_usb_function list \<Rightarrow> string \<Rightarrow> android_usb_function option" where
  "get_function [] nm = None"
| "get_function (f # fs) nm = (if nm = af_name f then Some f else get_function fs nm)"

text \<open>
  \<^verbatim>\<open>bind_functions\<close>: for each of the first \<^verbatim>\<open>dev->num_functions\<close> names of
  \<^verbatim>\<open>dev->functions\<close>, in that order, the module of that name has its \<^verbatim>\<open>bind_config\<close>
  called with \<^verbatim>\<open>dev->config\<close>, or the missing name is logged.
\<close>

fun bind_functions_loop :: "android_dev \<Rightarrow> string list \<Rightarrow> state \<Rightarrow> state" where
  "bind_functions_loop dev [] s = s"
| "bind_functions_loop dev (nm # nms) s =
     bind_functions_loop dev nms
       (case get_function (g_functions s) nm of
          Some f \<Rightarrow> s\<lparr>calls := calls s @ [Bind_config f (config dev)]\<rparr>
        | None \<Rightarrow> s\<lparr>calls := calls s @ [Pr_err_not_found nm]\<rparr>)"

definition bind_functions :: "android_dev \<Rightarrow> state \<Rightarrow> state" where
  "bind_functions dev s =
     bind_functions_loop dev (take (nat (num_functions dev)) (dev_functions dev))
       (s\<lparr>calls := calls s @ [Bind_functions]\<rparr>)"

text \<open>
  \<^verbatim>\<open>android_bind_config\<close>, the attach event: stores the configuration in
  \<^verbatim>\<open>dev->config\<close> and binds when the count equals \<^verbatim>\<open>dev->num_functions\<close>. The C
  function returns 0 on every path.
\<close>

definition android_bind_config :: "state \<Rightarrow> config_ref \<Rightarrow> error + state" where
  "android_bind_config s c =
     (case g_android_dev s of
        None \<Rightarrow> Inl NullDeref
      | Some dev0 \<Rightarrow>
          (let dev = dev0\<lparr>config := Some c\<rparr>;
               s1 = s\<lparr>g_android_dev := Some dev\<rparr>
           in if sint (g_registered_function_count s1) = num_functions dev
              then Inr (bind_functions dev s1) else Inr s1))"

text \<open>
  \<^verbatim>\<open>android_register_function\<close>: logs, appends to \<^verbatim>\<open>_functions\<close>, increments the
  count, and binds when \<^verbatim>\<open>dev\<close> and \<^verbatim>\<open>dev->config\<close> are set and the count equals
  \<^verbatim>\<open>dev->num_functions\<close>.
\<close>

definition android_register_function :: "state \<Rightarrow> android_usb_function \<Rightarrow> state" where
  "android_register_function s f =
     (let s1 = s\<lparr>calls := calls s @ [Pr_info_register (af_name f)],
                 g_functions := g_functions s @ [f],
                 g_registered_function_count := g_registered_function_count s + 1\<rparr>
      in case g_android_dev s1 of
           None \<Rightarrow> s1
         | Some dev \<Rightarrow>
             if config dev \<noteq> None
                \<and> sint (g_registered_function_count s1) = num_functions dev
             then bind_functions dev s1 else s1)"

text \<open>The two events of the gate, and a session as a list of events.\<close>

datatype event = Register android_usb_function | Attach config_ref

fun step :: "state \<Rightarrow> event \<Rightarrow> error + state" where
  "step s (Register f) = Inr (android_register_function s f)"
| "step s (Attach c) = android_bind_config s c"

fun run :: "state \<Rightarrow> event list \<Rightarrow> error + state" where
  "run s [] = Inr s"
| "run s (e # es) = (case step s e of Inl err \<Rightarrow> Inl err | Inr s1 \<Rightarrow> run s1 es)"

text \<open>How often \<^verbatim>\<open>bind_functions\<close> has been entered.\<close>

definition binds :: "state \<Rightarrow> nat" where
  "binds s = length (filter (\<lambda>c. c = Bind_functions) (calls s))"

text \<open>The log lines of the register calls among the events.\<close>

fun register_lines :: "event list \<Rightarrow> call list" where
  "register_lines [] = []"
| "register_lines (Register f # es) = Pr_info_register (af_name f) # register_lines es"
| "register_lines (Attach c # es) = register_lines es"

subsection \<open>The runtime toggle\<close>

text \<open>
  The build options \<^verbatim>\<open>CONFIG_USB_ANDROID_RNDIS\<close> and
  \<^verbatim>\<open>CONFIG_USB_ANDROID_RNDIS_WCEIS\<close>, which belong to the kernel configuration.
\<close>

record kconfig =
  CONFIG_USB_ANDROID_RNDIS :: bool
  CONFIG_USB_ANDROID_RNDIS_WCEIS :: bool

text \<open>The class codes of linux/usb/ch9.h.\<close>

definition USB_CLASS_PER_INTERFACE :: "8 word" where
  "USB_CLASS_PER_INTERFACE = 0"

definition USB_CLASS_COMM :: "8 word" where
  "USB_CLASS_COMM = 2"

definition USB_CLASS_WIRELESS_CONTROLLER :: "8 word" where
  "USB_CLASS_WIRELESS_CONTROLLER = 0xe0"

text \<open>
  Modelled from the spec: \<^verbatim>\<open>usb_function_set_enabled\<close> is defined in composite.c, which
  is not among the sources. The specification has it set the enabled flag of the function
  to the value requested; the flag the code reads is \<^verbatim>\<open>disabled\<close>, so it becomes
  \<^verbatim>\<open>!enabled\<close>.
\<close>

definition usb_function_set_enabled :: "usb_function \<Rightarrow> int \<Rightarrow> usb_function" where
  "usb_function_set_enabled f enabled = f\<lparr>disabled := c_not enabled\<rparr>"

text \<open>
  The body of \<^verbatim>\<open>#ifdef CONFIG_USB_ANDROID_RNDIS\<close>, taken when the function is named
  rndis: the device class is written through \<^verbatim>\<open>dev->cdev\<close>, which is dereferenced
  without a test, and the functions named usb_mass_storage, mtp and adb are set to
  \<^verbatim>\<open>!enable\<close>.
\<close>

definition rndis_class :: "kconfig \<Rightarrow> int \<Rightarrow> 8 word" where
  "rndis_class kc enable =
     (if enable \<noteq> 0
      then (if CONFIG_USB_ANDROID_RNDIS_WCEIS kc then USB_CLASS_WIRELESS_CONTROLLER
            else USB_CLASS_COMM)
      else USB_CLASS_PER_INTERFACE)"

definition rndis_conflict :: "int \<Rightarrow> usb_function \<Rightarrow> usb_function" where
  "rndis_conflict enable func =
     (if name func = ''usb_mass_storage'' \<or> name func = ''mtp'' \<or> name func = ''adb''
      then usb_function_set_enabled func (c_not enable) else func)"

definition rndis_branch :: "kconfig \<Rightarrow> state \<Rightarrow> usb_function \<Rightarrow> int \<Rightarrow> error + state" where
  "rndis_branch kc s f enable =
     (if CONFIG_USB_ANDROID_RNDIS kc \<and> name f = ''rndis'' then
        (case g_android_dev s of
           None \<Rightarrow> Inl NullDeref
         | Some dev \<Rightarrow>
             (case cdev dev of
                None \<Rightarrow> Inl NullDeref
              | Some cd \<Rightarrow>
                  Inr (s\<lparr>g_android_dev :=
                           Some (dev\<lparr>cdev := Some (cd\<lparr>desc := (desc cd)
                                   \<lparr>bDeviceClass := rndis_class kc enable\<rparr>\<rparr>)\<rparr>),
                         config_functions :=
                           map (rndis_conflict enable) (config_functions s)\<rparr>)))
      else Inr s)"

text \<open>
  The tail of the changed branch: the product id is selected again and written to
  \<^verbatim>\<open>device_desc\<close>, copied to the descriptor of \<^verbatim>\<open>dev->cdev\<close> when there is one, and
  \<^verbatim>\<open>usb_composite_force_reset(dev->cdev)\<close> is called. \<^verbatim>\<open>cpu_to_le16\<close> keeps the low 16
  bits of the id.
\<close>

definition update_product_id :: "state \<Rightarrow> error + state" where
  "update_product_id s =
     (case g_android_dev s of
        None \<Rightarrow> Inl NullDeref
      | Some dev \<Rightarrow>
          (let pid = get_product_id dev (config_functions s);
               dd = (device_desc s)\<lparr>idProduct := word_of_int pid\<rparr>;
               dev1 = (case cdev dev of
                         None \<Rightarrow> dev
                       | Some cd \<Rightarrow>
                           dev\<lparr>cdev := Some (cd\<lparr>desc := (desc cd)
                                  \<lparr>idProduct := idProduct dd\<rparr>\<rparr>)\<rparr>)
           in Inr (s\<lparr>g_android_dev := Some dev1, device_desc := dd,
                      calls := calls s @ [Usb_composite_force_reset (cdev dev1)]\<rparr>)))"

text \<open>
  \<^verbatim>\<open>android_enable_function\<close>. The function \<^verbatim>\<open>f\<close> is given by its position \<open>fi\<close> in
  \<^verbatim>\<open>android_config_driver.functions\<close>.
\<close>

definition android_enable_function :: "kconfig \<Rightarrow> state \<Rightarrow> nat \<Rightarrow> int \<Rightarrow> error + state" where
  "android_enable_function kc s fi enable =
     (if length (config_functions s) \<le> fi then Inl BadPointer
      else
        (let f = config_functions s ! fi;
             disable = c_not enable
         in if c_not (c_not (disabled f)) \<noteq> disable then
              (let s1 = s\<lparr>config_functions :=
                           (config_functions s)[fi := usb_function_set_enabled f (c_not disable)]\<rparr>
               in case rndis_branch kc s1 (config_functions s1 ! fi) enable of
                    Inl err \<Rightarrow> Inl err
                  | Inr s2 \<Rightarrow> update_product_id s2)
            else Inr s))"

text \<open>Disabling a function and enabling it again.\<close>

definition toggle :: "kconfig \<Rightarrow> state \<Rightarrow> nat \<Rightarrow> error + state" where
  "toggle kc s fi =
     (case android_enable_function kc s fi 0 of
        Inl err \<Rightarrow> Inl err
      | Inr s1 \<Rightarrow> android_enable_function kc s1 fi 1)"

text \<open>
  The enabled-set of the specification: each function known to the system with whether
  it is enabled.
\<close>

definition enabled_view :: "usb_function list \<Rightarrow> (string \<times> bool) list" where
  "enabled_view fs = map (\<lambda>g. (name g, disabled g = 0)) fs"

text \<open>The log line of a registration.\<close>

definition register_line :: "android_usb_function \<Rightarrow> call" where
  "register_line f = Pr_info_register (af_name f)"

text \<open>
  The assembly in the words of the specification: the expected names are taken in the
  order of the platform configuration; for each, the module registered under that name
  has its bind callback invoked with the configuration, and a name with no module is
  logged. \<open>reg\<close> is the registry at that moment.
\<close>

definition assembly :: "android_dev \<Rightarrow> android_usb_function list \<Rightarrow> call list" where
  "assembly dev reg =
     Bind_functions #
     map (\<lambda>nm. case get_function reg nm of
                  Some f \<Rightarrow> Bind_config f (config dev)
                | None \<Rightarrow> Pr_err_not_found nm)
       (take (nat (num_functions dev)) (dev_functions dev))"


subsection \<open>Examples\<close>

text \<open>
  The catalog of the specification's example: profile 0x1111 lists A, profile 0x2222
  lists B, the default id is 0x0001; the functions known to the system are A and B.
\<close>

definition example_dev :: android_dev where
  "example_dev =
     \<lparr>cdev = None, config = None, num_products = 2,
      products = Some [\<lparr>p_product_id = 0x1111, p_num_functions = 1, p_functions = [''A'']\<rparr>,
                       \<lparr>p_product_id = 0x2222, p_num_functions = 1, p_functions = [''B'']\<rparr>],
      num_functions = 0, dev_functions = [], product_id = 0x0001\<rparr>"

definition example_fn :: "string \<Rightarrow> bool \<Rightarrow> usb_function" where
  "example_fn nm en = \<lparr>name = nm, disabled = (if en then 0 else 1), setup_fn = None\<rparr>"

text \<open>A request and interfaces for the examples of the dispatch.\<close>

definition example_ctrl :: usb_ctrlrequest where
  "example_ctrl = \<lparr>bRequestType = 0x21, bRequest = 1, wValue = 0, wIndex = 7, wLength = 0\<rparr>"

definition example_if :: "(usb_ctrlrequest \<Rightarrow> int) option \<Rightarrow> usb_function" where
  "example_if h = \<lparr>name = ''f'', disabled = 0, setup_fn = h\<rparr>"

text \<open>A handler whose answer depends on the \<^verbatim>\<open>wIndex\<close> it is shown.\<close>

definition example_echo :: "usb_ctrlrequest \<Rightarrow> int" where
  "example_echo r = uint (wIndex r) - 1"

text \<open>
  States for the examples of the gate: a device that expects two functions,
  usb_mass_storage and adb, before anything has registered.
\<close>

definition example_gate_dev :: android_dev where
  "example_gate_dev =
     \<lparr>cdev = None, config = None, num_products = 0, products = None,
      num_functions = 2, dev_functions = [''usb_mass_storage'', ''adb''], product_id = 1\<rparr>"

definition example_state :: state where
  "example_state =
     \<lparr>g_android_dev = Some example_gate_dev,
      device_desc = \<lparr>idProduct = 1, bDeviceClass = 0\<rparr>,
      g_functions = [], g_registered_function_count = 0,
      config_functions = [], calls = []\<rparr>"

definition example_module :: "string \<Rightarrow> nat \<Rightarrow> android_usb_function" where
  "example_module nm cb = \<lparr>af_name = nm, af_bind_config = cb\<rparr>"

text \<open>
  The state after three registrations, two of them under the name adb, with the
  configuration not yet attached: the count has passed the expected two.
\<close>

definition example_overfull :: state where
  "example_overfull =
     example_state\<lparr>g_functions := [example_module ''adb'' 1, example_module ''adb'' 2,
                                    example_module ''usb_mass_storage'' 3],
                    g_registered_function_count := 3,
                    calls := [Pr_info_register ''adb'', Pr_info_register ''adb'',
                              Pr_info_register ''usb_mass_storage'']\<rparr>"



text \<open>
  Examples for the toggle: a build without and a build with the RNDIS option; a device
  whose catalog has a profile for rndis with adb, one for rndis alone and one for adb
  alone; a state in which rndis and adb are both enabled and the descriptor carries the
  id selected for that; a state in which both are disabled and the descriptor carries the
  default id; and the first state before the framework handle is attached.
\<close>

definition example_kc_plain :: kconfig where
  "example_kc_plain = \<lparr>CONFIG_USB_ANDROID_RNDIS = False, CONFIG_USB_ANDROID_RNDIS_WCEIS = False\<rparr>"

definition example_kc_rndis :: kconfig where
  "example_kc_rndis = \<lparr>CONFIG_USB_ANDROID_RNDIS = True, CONFIG_USB_ANDROID_RNDIS_WCEIS = False\<rparr>"

definition example_toggle_dev :: android_dev where
  "example_toggle_dev =
     \<lparr>cdev = Some \<lparr>desc = \<lparr>idProduct = 2, bDeviceClass = 2\<rparr>\<rparr>, config = Some 7,
      num_products = 3,
      products = Some [\<lparr>p_product_id = 2, p_num_functions = 2, p_functions = [''rndis'', ''adb'']\<rparr>,
                       \<lparr>p_product_id = 3, p_num_functions = 1, p_functions = [''rndis'']\<rparr>,
                       \<lparr>p_product_id = 4, p_num_functions = 1, p_functions = [''adb'']\<rparr>],
      num_functions = 2, dev_functions = [''rndis'', ''adb''], product_id = 1\<rparr>"

definition example_toggle_state :: state where
  "example_toggle_state =
     \<lparr>g_android_dev = Some example_toggle_dev,
      device_desc = \<lparr>idProduct = 2, bDeviceClass = 0\<rparr>,
      g_functions = [], g_registered_function_count = 2,
      config_functions = [example_fn ''rndis'' True, example_fn ''adb'' True], calls = []\<rparr>"

definition example_all_off :: state where
  "example_all_off =
     example_toggle_state\<lparr>
       g_android_dev := Some (example_toggle_dev\<lparr>cdev :=
         Some \<lparr>desc = \<lparr>idProduct = 1, bDeviceClass = 0\<rparr>\<rparr>\<rparr>),
       device_desc := \<lparr>idProduct = 1, bDeviceClass = 0\<rparr>,
       config_functions := [example_fn ''rndis'' False, example_fn ''adb'' False]\<rparr>"

definition example_unbound :: state where
  "example_unbound =
     example_toggle_state\<lparr>g_android_dev := Some (example_toggle_dev\<lparr>cdev := None\<rparr>)\<rparr>"

section \<open>Product id selection: first match in catalog order\<close>

lemma has_function_loop_iff: "has_function_loop xs nm = (if nm \<in> set xs then 1 else 0)"
  by (induction xs) auto

lemma product_has_function_iff:
  "product_has_function p f =
     (if name f \<in> set (take (nat (p_num_functions p)) (p_functions p)) then 1 else 0)"
  by (simp add: product_has_function_def has_function_loop_iff)

lemma product_matches_functions_iff:
  "product_matches_functions p fs = (if profile_matches p fs then 1 else 0)"
  by (induction fs) (auto simp: profile_matches_def product_has_function_iff c_not_def)

lemma product_id_loop_find:
  "product_id_loop ps fs = map_option p_product_id (find (\<lambda>p. profile_matches p fs) ps)"
  by (induction ps) (auto simp: product_matches_functions_iff)

text \<open>
  Claim C1. \<^verbatim>\<open>get_product_id\<close> walks the catalog in declared order and returns the id
  of the first profile that matches, where a profile matches iff every function known to
  the system is enabled exactly when the profile lists it; when no profile matches, or
  the catalog is absent or empty, it returns the default id.
\<close>

theorem get_product_id_first_match:
  "get_product_id dev fs =
     (case products dev of
        None \<Rightarrow> product_id dev
      | Some ps \<Rightarrow>
          (case find (\<lambda>p. profile_matches p fs) (take (nat (num_products dev)) ps) of
             Some p \<Rightarrow> p_product_id p
           | None \<Rightarrow> product_id dev))"
  by (simp add: get_product_id_def product_id_loop_find split: option.splits)

text \<open>
  The example of the specification: enabled = {A} selects 0x1111, enabled = {B} selects
  0x2222, enabled = {} and enabled = {A, B} select the default 0x0001; an absent and an
  empty catalog select the default.
\<close>

theorem get_product_id_first_match_witness:
  "get_product_id example_dev [example_fn ''A'' True, example_fn ''B'' False] = 0x1111
   \<and> get_product_id example_dev [example_fn ''A'' False, example_fn ''B'' True] = 0x2222
   \<and> get_product_id example_dev [example_fn ''A'' False, example_fn ''B'' False] = 0x0001
   \<and> get_product_id example_dev [example_fn ''A'' True, example_fn ''B'' True] = 0x0001
   \<and> get_product_id (example_dev\<lparr>products := None\<rparr>)
         [example_fn ''A'' True, example_fn ''B'' False] = 0x0001
   \<and> get_product_id (example_dev\<lparr>num_products := 0\<rparr>)
         [example_fn ''A'' True, example_fn ''B'' False] = 0x0001"
  using get_product_id_first_match [of example_dev "[example_fn ''A'' True, example_fn ''B'' False]"]
    get_product_id_first_match [of example_dev "[example_fn ''A'' False, example_fn ''B'' True]"]
    get_product_id_first_match [of example_dev "[example_fn ''A'' False, example_fn ''B'' False]"]
    get_product_id_first_match [of example_dev "[example_fn ''A'' True, example_fn ''B'' True]"]
    get_product_id_first_match [of "example_dev\<lparr>products := None\<rparr>"
      "[example_fn ''A'' True, example_fn ''B'' False]"]
    get_product_id_first_match [of "example_dev\<lparr>num_products := 0\<rparr>"
      "[example_fn ''A'' True, example_fn ''B'' False]"]
  by (simp add: example_dev_def example_fn_def profile_matches_def)

section \<open>Setup request dispatch\<close>

lemma answer_wIndex: "answer (t\<lparr>wIndex := w\<rparr>) = answer t"
  by (rule ext) (simp add: answer_def)

lemma answer_pair: "answer t (i, h) = h (t\<lparr>wIndex := word_of_nat i\<rparr>)"
  by (simp add: answer_def)

lemma setup_loop_ret:
  "ret (setup_loop fs i fr) =
     (case find (\<lambda>r. 0 \<le> r) (map (answer (tmp_ctrl fr)) (handlers_from i fs)) of
        Some r \<Rightarrow> r
      | None \<Rightarrow> last (ret fr # map (answer (tmp_ctrl fr)) (handlers_from i fs)))"
  by (induction fs arbitrary: i fr) (auto simp: Let_def answer_wIndex answer_pair split: option.splits)

lemma setup_loop_consulted:
  "consulted (setup_loop fs i fr) =
     consulted fr @ map (\<lambda>ih. (fst ih, (tmp_ctrl fr)\<lparr>wIndex := word_of_nat (fst ih)\<rparr>))
       (take (Suc (length (takeWhile (\<lambda>r. r < 0) (map (answer (tmp_ctrl fr)) (handlers_from i fs)))))
          (handlers_from i fs))"
  by (induction fs arbitrary: i fr) (auto simp: Let_def answer_wIndex answer_pair split: option.splits)

lemma setup_loop_caller: "caller_ctrl (setup_loop fs i fr) = caller_ctrl fr"
  by (induction fs arbitrary: i fr) (auto simp: Let_def split: option.splits)

text \<open>
  Claim C6. The dispatch visits the interfaces in index order and skips those without a
  handler. The first handler that returns a non-negative result ends the search and its
  result is returned, the later interfaces are not consulted; when every consulted
  handler returns a negative result, the last one's is returned; when no interface has
  a handler, the result is \<^verbatim>\<open>-EOPNOTSUPP\<close>.
\<close>

theorem android_setup_config_dispatch:
  "ret (android_setup_config c ctrl) = dispatch_result (answers c ctrl)
   \<and> map fst (consulted (android_setup_config c ctrl)) = dispatch_consulted c ctrl"
proof
  show "ret (android_setup_config c ctrl) = dispatch_result (answers c ctrl)"
    by (simp add: android_setup_config_def answers_def handlers_def setup_loop_ret
        dispatch_result_def split: option.splits)
  show "map fst (consulted (android_setup_config c ctrl)) = dispatch_consulted c ctrl"
    unfolding android_setup_config_def dispatch_consulted_def answers_def handlers_def
      setup_loop_consulted
    by (simp add: comp_def)
qed

text \<open>
  Three interfaces: the second answers 4, so the third is not consulted; no handler at
  all gives -95; two negative answers around an interface without handler give the last.
\<close>

theorem android_setup_config_dispatch_witness:
  "ret (android_setup_config
      \<lparr>next_interface_id = 3,
       interface = [example_if (Some (\<lambda>r. - 22)), example_if (Some (\<lambda>r. 4)),
                    example_if (Some (\<lambda>r. 9))]\<rparr> example_ctrl) = 4
   \<and> map fst (consulted (android_setup_config
      \<lparr>next_interface_id = 3,
       interface = [example_if (Some (\<lambda>r. - 22)), example_if (Some (\<lambda>r. 4)),
                    example_if (Some (\<lambda>r. 9))]\<rparr> example_ctrl)) = [0, 1]
   \<and> ret (android_setup_config
      \<lparr>next_interface_id = 3,
       interface = [example_if None, example_if None, example_if None]\<rparr> example_ctrl) = - 95
   \<and> ret (android_setup_config
      \<lparr>next_interface_id = 3,
       interface = [example_if (Some (\<lambda>r. - 22)), example_if None,
                    example_if (Some (\<lambda>r. - 5))]\<rparr> example_ctrl) = - 5
   \<and> map fst (consulted (android_setup_config
      \<lparr>next_interface_id = 3,
       interface = [example_if (Some (\<lambda>r. - 22)), example_if None,
                    example_if (Some (\<lambda>r. - 5))]\<rparr> example_ctrl)) = [0, 2]"
  using android_setup_config_dispatch [of
      "\<lparr>next_interface_id = 3,
       interface = [example_if (Some (\<lambda>r. - 22)), example_if (Some (\<lambda>r. 4)),
                    example_if (Some (\<lambda>r. 9))]\<rparr>" example_ctrl]
    android_setup_config_dispatch [of
      "\<lparr>next_interface_id = 3,
       interface = [example_if None, example_if None, example_if None]\<rparr>" example_ctrl]
    android_setup_config_dispatch [of
      "\<lparr>next_interface_id = 3,
       interface = [example_if (Some (\<lambda>r. - 22)), example_if None,
                    example_if (Some (\<lambda>r. - 5))]\<rparr>" example_ctrl]
  by (simp add: dispatch_result_def dispatch_consulted_def answers_def handlers_def
      answer_def example_if_def EOPNOTSUPP_def numeral_3_eq_3)

text \<open>
  Claim C10. Each handler is invoked on the private copy of the request, whose
  \<^verbatim>\<open>wIndex\<close> holds the index of that handler's interface and whose other fields are the
  caller's. The caller's \<^verbatim>\<open>wIndex\<close> reaches no handler: changing it changes neither
  the handlers consulted, nor the requests they are shown, nor the result. The caller's
  request is not written.
\<close>

theorem android_setup_config_private_copy:
  "(\<forall>(i, req) \<in> set (consulted (android_setup_config c ctrl)).
       req = ctrl\<lparr>wIndex := word_of_nat i\<rparr>)
   \<and> caller_ctrl (android_setup_config c ctrl) = ctrl
   \<and> ret (android_setup_config c (ctrl\<lparr>wIndex := w\<rparr>)) = ret (android_setup_config c ctrl)
   \<and> consulted (android_setup_config c (ctrl\<lparr>wIndex := w\<rparr>))
       = consulted (android_setup_config c ctrl)"
proof (intro conjI)
  show "\<forall>(i, req) \<in> set (consulted (android_setup_config c ctrl)).
          req = ctrl\<lparr>wIndex := word_of_nat i\<rparr>"
    unfolding android_setup_config_def setup_loop_consulted by auto
  show "caller_ctrl (android_setup_config c ctrl) = ctrl"
    by (simp add: android_setup_config_def setup_loop_caller)
  show "ret (android_setup_config c (ctrl\<lparr>wIndex := w\<rparr>)) = ret (android_setup_config c ctrl)"
    by (simp add: android_setup_config_def setup_loop_ret answer_wIndex split: option.splits)
  show "consulted (android_setup_config c (ctrl\<lparr>wIndex := w\<rparr>))
       = consulted (android_setup_config c ctrl)"
    unfolding android_setup_config_def setup_loop_consulted by (simp add: answer_wIndex)
qed

text \<open>
  Two handlers that echo the \<^verbatim>\<open>wIndex\<close> they see, and a caller whose \<^verbatim>\<open>wIndex\<close> is 7:
  they see 0 and 1.
\<close>

theorem android_setup_config_private_copy_witness:
  "consulted (android_setup_config
      \<lparr>next_interface_id = 2, interface = [example_if (Some example_echo), example_if (Some example_echo)]\<rparr>
      example_ctrl)
     = [(0, example_ctrl\<lparr>wIndex := 0\<rparr>), (1, example_ctrl\<lparr>wIndex := 1\<rparr>)]
   \<and> ret (android_setup_config
      \<lparr>next_interface_id = 2, interface = [example_if (Some example_echo), example_if (Some example_echo)]\<rparr>
      example_ctrl) = 0
   \<and> caller_ctrl (android_setup_config
      \<lparr>next_interface_id = 2, interface = [example_if (Some example_echo), example_if (Some example_echo)]\<rparr>
      example_ctrl) = example_ctrl
   \<and> wIndex example_ctrl = 7"
  using android_setup_config_private_copy [of
      "\<lparr>next_interface_id = 2, interface = [example_if (Some example_echo), example_if (Some example_echo)]\<rparr>"
      example_ctrl 0]
  by (simp add: android_setup_config_def example_if_def example_echo_def example_ctrl_def
      EOPNOTSUPP_def numeral_2_eq_2)

section \<open>Registration and the completeness gate\<close>

lemma sint_inc32: "sint (c :: 32 word) < 2147483647 \<Longrightarrow> sint (c + 1) = sint c + 1"
proof -
  assume a: "sint c < 2147483647"
  have lo: "- 2147483648 \<le> sint c" using sint_ge [of c] by simp
  have "sint (c + 1) = signed_take_bit 31 (sint c + 1)"
    by (simp add: sint_word_ariths)
  also have "\<dots> = sint c + 1"
    using a lo by (simp add: signed_take_bit_int_eq_self)
  finally show ?thesis .
qed

lemma sint_of_nat32:
  assumes "n < 2147483648"
  shows "sint (word_of_nat n :: 32 word) = int n"
  using assms by (simp add: signed_of_nat signed_take_bit_int_eq_self)


lemma bind_functions_loop_eq:
  "bind_functions_loop dev nms s =
     s\<lparr>calls := calls s @ map (\<lambda>nm. case get_function (g_functions s) nm of
            Some f \<Rightarrow> Bind_config f (config dev) | None \<Rightarrow> Pr_err_not_found nm) nms\<rparr>"
  by (induction nms arbitrary: s) (auto split: option.splits)

lemma bind_functions_eq:
  "bind_functions dev s =
     s\<lparr>calls := calls s @ Bind_functions #
        map (\<lambda>nm. case get_function (g_functions s) nm of
               Some f \<Rightarrow> Bind_config f (config dev) | None \<Rightarrow> Pr_err_not_found nm)
          (take (nat (num_functions dev)) (dev_functions dev))\<rparr>"
  by (simp add: bind_functions_def bind_functions_loop_eq)

lemma binds_bind_functions: "binds (bind_functions dev s) = Suc (binds s)"
  by (simp add: bind_functions_eq binds_def filter_map comp_def split: option.splits)

lemma bind_functions_fields:
  "g_android_dev (bind_functions dev s) = g_android_dev s"
  "g_registered_function_count (bind_functions dev s) = g_registered_function_count s"
  "g_functions (bind_functions dev s) = g_functions s"
  by (simp_all add: bind_functions_eq)

lemma register_fields:
  "g_android_dev (android_register_function s f) = g_android_dev s"
  "g_registered_function_count (android_register_function s f) = g_registered_function_count s + 1"
  "g_functions (android_register_function s f) = g_functions s @ [f]"
  by (simp_all add: android_register_function_def Let_def bind_functions_fields split: option.splits)

lemma register_no_bind:
  assumes "g_android_dev s = Some dev"
    and "config dev = None \<or> sint (g_registered_function_count s + 1) \<noteq> num_functions dev"
  shows "android_register_function s f =
     s\<lparr>calls := calls s @ [Pr_info_register (af_name f)],
       g_functions := g_functions s @ [f],
       g_registered_function_count := g_registered_function_count s + 1\<rparr>"
  using assms by (auto simp: android_register_function_def Let_def)

lemma attach_result:
  assumes "g_android_dev s = Some dev"
  shows "\<exists>s1. android_bind_config s c = Inr s1
     \<and> g_android_dev s1 = Some (dev\<lparr>config := Some c\<rparr>)
     \<and> g_registered_function_count s1 = g_registered_function_count s
     \<and> binds s1 = (if sint (g_registered_function_count s) = num_functions dev
                     then Suc (binds s) else binds s)
     \<and> (sint (g_registered_function_count s) \<noteq> num_functions dev \<longrightarrow> calls s1 = calls s)"
  using assms
  by (simp add: android_bind_config_def Let_def bind_functions_fields binds_bind_functions)
    (simp add: binds_def)

lemma run_append:
  "run s (es1 @ es2) = (case run s es1 of Inl err \<Rightarrow> Inl err | Inr s1 \<Rightarrow> run s1 es2)"
  by (induction es1 arbitrary: s) (auto split: sum.splits)

lemma run_no_bind_beyond:
  assumes "g_android_dev s = Some dev"
    and "num_functions dev < sint (g_registered_function_count s)"
    and "sint (g_registered_function_count s) + int (length es) < 2147483648"
  shows "\<exists>s1. run s es = Inr s1 \<and> calls s1 = calls s @ register_lines es"
  using assms
proof (induction es arbitrary: s dev)
  case Nil
  then show ?case by simp
next
  case (Cons e es)
  show ?case
  proof (cases e)
    case (Register f)
    let ?s = "android_register_function s f"
    have c: "sint (g_registered_function_count s + 1) = sint (g_registered_function_count s) + 1"
      using Cons.prems(3) by (simp add: sint_inc32)
    have eq: "?s = s\<lparr>calls := calls s @ [Pr_info_register (af_name f)],
       g_functions := g_functions s @ [f],
       g_registered_function_count := g_registered_function_count s + 1\<rparr>"
      using Cons.prems(1,2) c by (intro register_no_bind [of s dev]) auto
    have d: "g_android_dev ?s = Some dev" using Cons.prems(1) by (simp add: register_fields)
    have g: "num_functions dev < sint (g_registered_function_count ?s)"
      using Cons.prems(2) c by (simp add: register_fields)
    have n: "sint (g_registered_function_count ?s) + int (length es) < 2147483648"
      using Cons.prems(3) c by (simp add: register_fields)
    from Cons.IH [OF d g n] obtain s1 where
      "run ?s es = Inr s1" "calls s1 = calls ?s @ register_lines es" by blast
    then show ?thesis using Register eq by simp
  next
    case (Attach c)
    from attach_result [OF Cons.prems(1), of c] Cons.prems(2) obtain s0 where
      a: "android_bind_config s c = Inr s0"
      and d: "g_android_dev s0 = Some (dev\<lparr>config := Some c\<rparr>)"
      and k: "g_registered_function_count s0 = g_registered_function_count s"
      and l: "calls s0 = calls s"
      by auto
    have g: "num_functions (dev\<lparr>config := Some c\<rparr>) < sint (g_registered_function_count s0)"
      using Cons.prems(2) k by simp
    have n: "sint (g_registered_function_count s0) + int (length es) < 2147483648"
      using Cons.prems(3) k by simp
    from Cons.IH [OF d g n] obtain s1 where
      "run s0 es = Inr s1" "calls s1 = calls s0 @ register_lines es" by blast
    then show ?thesis using Attach a l by simp
  qed
qed

lemma binds_register_lines: "filter (\<lambda>c. c = Bind_functions) (register_lines es) = []"
  by (induction es rule: register_lines.induct) auto




lemma bind_functions_assembly:
  "bind_functions dev s = s\<lparr>calls := calls s @ assembly dev (g_functions s)\<rparr>"
  by (simp add: bind_functions_eq assembly_def)


lemma register_full:
  assumes "g_android_dev s = Some dev"
  shows "android_register_function s f =
     s\<lparr>calls := calls s @ register_line f #
          (if config dev \<noteq> None \<and> sint (g_registered_function_count s + 1) = num_functions dev
           then assembly dev (g_functions s @ [f]) else []),
       g_functions := g_functions s @ [f],
       g_registered_function_count := g_registered_function_count s + 1\<rparr>"
  using assms
  by (simp add: android_register_function_def Let_def bind_functions_assembly register_line_def)

lemma attach_full:
  assumes "g_android_dev s = Some dev"
  shows "android_bind_config s c =
     Inr (s\<lparr>g_android_dev := Some (dev\<lparr>config := Some c\<rparr>),
            calls := calls s @
              (if sint (g_registered_function_count s) = num_functions dev
               then assembly (dev\<lparr>config := Some c\<rparr>) (g_functions s) else [])\<rparr>)"
  using assms
  by (simp add: android_bind_config_def Let_def bind_functions_assembly)

lemma run_registers_unattached_full:
  assumes "g_android_dev s = Some dev" and "config dev = None"
  shows "run s (map Register fs) =
     Inr (s\<lparr>calls := calls s @ map register_line fs,
            g_functions := g_functions s @ fs,
            g_registered_function_count := g_registered_function_count s + word_of_nat (length fs)\<rparr>)"
  using assms
proof (induction fs arbitrary: s)
  case Nil
  then show ?case by simp
next
  case (Cons f fs)
  let ?s = "s\<lparr>calls := calls s @ [register_line f],
       g_functions := g_functions s @ [f],
       g_registered_function_count := g_registered_function_count s + 1\<rparr>"
  have e: "android_register_function s f = ?s"
    using Cons.prems by (simp add: register_full)
  have d: "g_android_dev ?s = Some dev" using Cons.prems by simp
  show ?case
    using Cons.IH [OF d Cons.prems(2)] e by (simp add: add.assoc add.commute)
qed

lemma run_registers_attached_full:
  assumes "g_android_dev s = Some dev" and "config dev \<noteq> None"
    and "sint (g_registered_function_count s) + int (length fs) < 2147483648"
  shows "run s (map Register fs) =
     Inr (s\<lparr>calls := calls s @
              (if sint (g_registered_function_count s) < num_functions dev
                  \<and> num_functions dev \<le> sint (g_registered_function_count s) + int (length fs)
               then map register_line
                      (take (nat (num_functions dev - sint (g_registered_function_count s))) fs)
                    @ assembly dev (g_functions s @
                        take (nat (num_functions dev - sint (g_registered_function_count s))) fs)
                    @ map register_line
                        (drop (nat (num_functions dev - sint (g_registered_function_count s))) fs)
               else map register_line fs),
            g_functions := g_functions s @ fs,
            g_registered_function_count := g_registered_function_count s + word_of_nat (length fs)\<rparr>)"
  using assms
proof (induction fs arbitrary: s)
  case Nil
  then show ?case by auto
next
  case (Cons f fs)
  let ?k = "sint (g_registered_function_count s)"
  let ?n = "num_functions dev"
  let ?s = "android_register_function s f"
  have c: "sint (g_registered_function_count s + 1) = ?k + 1"
    using Cons.prems(3) by (simp add: sint_inc32)
  have e: "?s = s\<lparr>calls := calls s @ register_line f #
          (if ?k + 1 = ?n then assembly dev (g_functions s @ [f]) else []),
       g_functions := g_functions s @ [f],
       g_registered_function_count := g_registered_function_count s + 1\<rparr>"
    using Cons.prems(1,2) c by (simp add: register_full)
  have d: "g_android_dev ?s = Some dev" using Cons.prems(1) by (simp add: register_fields)
  have k: "sint (g_registered_function_count ?s) = ?k + 1"
    using c by (simp add: register_fields)
  have n: "sint (g_registered_function_count ?s) + int (length fs) < 2147483648"
    using Cons.prems(3) k by simp
  note ih = Cons.IH [OF d Cons.prems(2) n, unfolded k]
  consider (fire) "?k + 1 = ?n" | (below) "?k + 1 < ?n" | (above) "?n < ?k + 1" by linarith
  then show ?case
  proof cases
    case fire
    then have "nat (?n - ?k) = Suc 0" by simp
    with fire ih e show ?thesis by (simp add: add.assoc add.commute)
  next
    case below
    then have "nat (?n - ?k) = Suc (nat (?n - (?k + 1)))" by simp
    with below ih e show ?thesis by (simp add: add.assoc add.commute)
  next
    case above
    with ih e show ?thesis by (simp add: add.assoc add.commute)
  qed
qed



lemmas example_defs = example_state_def example_gate_dev_def example_module_def

lemmas gate_defs = android_register_function_def android_bind_config_def bind_functions_def
  binds_def Let_def

text \<open>
  Claim C2. A session is a sequence of register calls with the single attach event
  somewhere among them: \<open>fs1\<close> are the modules registered before the attach, \<open>fs2\<close>
  those registered after it. Before the attach the driver only logs the registrations.
  Over the whole session \<^verbatim>\<open>bind_functions\<close> is entered at most once, and it is entered
  exactly when the count was at most the expected count at the attach and has reached
  it by the end. The calls of the session are then: the log lines of the registrations
  up to the one that completes the count, the assembly over the registry as it stands
  at that moment (each expected name's \<^verbatim>\<open>bind_config\<close> callback with the attached
  configuration, or the error line for a missing name), and the log lines of the
  remaining registrations. So the attach performs the assembly when the count is
  complete by then, otherwise the register call that completes the count does, and no
  later event performs it again. Since \<open>fs2\<close> is arbitrary, this holds after every
  prefix of the session. The probe sets the expected count before the attach, and until
  the attach no registration binds, so the session is taken to start with the expected
  count in place. The counter is a C \<^verbatim>\<open>int\<close>: the sessions are those of fewer than
  \<open>2^31\<close> register calls.
\<close>

theorem bind_functions_at_most_once:
  assumes "g_android_dev s = Some dev" and "config dev = None"
    and "g_registered_function_count s = 0"
    and "length fs1 + length fs2 < 2147483648"
  shows "(\<exists>s1. run s (map Register fs1) = Inr s1 \<and> binds s1 = binds s
            \<and> calls s1 = calls s @ map register_line fs1)
     \<and> (\<exists>s2. run s (map Register fs1 @ Attach c # map Register fs2) = Inr s2
            \<and> binds s2 \<le> binds s + 1
            \<and> (binds s2 = binds s + 1 \<longleftrightarrow>
                 int (length fs1) \<le> num_functions dev
                 \<and> num_functions dev \<le> int (length fs1 + length fs2))
            \<and> calls s2 = calls s @
                 (if int (length fs1) \<le> num_functions dev
                     \<and> num_functions dev \<le> int (length fs1 + length fs2)
                  then map register_line (take (nat (num_functions dev)) (fs1 @ fs2))
                       @ assembly (dev\<lparr>config := Some c\<rparr>)
                           (g_functions s @ take (nat (num_functions dev)) (fs1 @ fs2))
                       @ map register_line (drop (nat (num_functions dev)) (fs1 @ fs2))
                  else map register_line (fs1 @ fs2)))"
proof -
  let ?n = "num_functions dev"
  let ?dev = "dev\<lparr>config := Some c\<rparr>"
  let ?s1 = "s\<lparr>calls := calls s @ map register_line fs1,
            g_functions := g_functions s @ fs1,
            g_registered_function_count := g_registered_function_count s + word_of_nat (length fs1)\<rparr>"
  have r1: "run s (map Register fs1) = Inr ?s1"
    by (rule run_registers_unattached_full [OF assms(1,2)])
  have b1: "binds ?s1 = binds s" by (simp add: binds_def register_line_def)
  have c1: "sint (g_registered_function_count ?s1) = int (length fs1)"
    using assms(3,4) by (simp add: sint_of_nat32)
  let ?sa = "?s1\<lparr>g_android_dev := Some ?dev,
            calls := calls ?s1 @
              (if int (length fs1) = ?n then assembly ?dev (g_functions ?s1) else [])\<rparr>"
  have ra: "android_bind_config ?s1 c = Inr ?sa"
    using attach_full [of ?s1 dev c] assms(1) c1 by simp
  have da: "g_android_dev ?sa = Some ?dev" by simp
  have ka: "sint (g_registered_function_count ?sa) = int (length fs1)" using c1 by simp
  have na: "sint (g_registered_function_count ?sa) + int (length fs2) < 2147483648"
    using assms(4) ka by simp
  note r2 = run_registers_attached_full [OF da _ na, unfolded ka, simplified]
  let ?tr = "(if int (length fs1) \<le> ?n \<and> ?n \<le> int (length fs1 + length fs2)
                  then map register_line (take (nat ?n) (fs1 @ fs2))
                       @ assembly ?dev (g_functions s @ take (nat ?n) (fs1 @ fs2))
                       @ map register_line (drop (nat ?n) (fs1 @ fs2))
                  else map register_line (fs1 @ fs2))"
  obtain s2 where r: "run ?sa (map Register fs2) = Inr s2"
    and t: "calls s2 = calls s @ ?tr"
  proof (cases "int (length fs1) = ?n")
    case True
    then have "nat ?n = length fs1" by simp
    with True r2 that show ?thesis by simp
  next
    case False
    show ?thesis
    proof (cases "int (length fs1) < ?n \<and> ?n \<le> int (length fs1 + length fs2)")
      case True
      then have "nat (?n - int (length fs1)) = nat ?n - length fs1" "length fs1 \<le> nat ?n"
        by linarith+
      with True False r2 that show ?thesis by simp
    next
      case no: False
      with False r2 that show ?thesis by auto
    qed
  qed
  have run2: "run s (map Register fs1 @ Attach c # map Register fs2) = Inr s2"
    using r1 ra r by (simp add: run_append)
  have ba: "filter (\<lambda>c. c = Bind_functions) (map register_line xs) = []" for xs
    by (induction xs) (simp_all add: register_line_def)
  have bb: "filter (\<lambda>c. c = Bind_functions) (assembly d reg) = [Bind_functions]" for d reg
    by (simp add: assembly_def filter_map comp_def split: option.splits)
  have b2: "binds s2 = binds s +
      (if int (length fs1) \<le> ?n \<and> ?n \<le> int (length fs1 + length fs2) then 1 else 0)"
    unfolding binds_def t by (simp add: ba bb del: map_append)
  show ?thesis using r1 b1 run2 b2 t by auto
qed

text \<open>
  One function registers, the configuration is attached, two more register: the register
  call that makes the count two calls both callbacks, once. When both have registered
  before the attach, the attach calls them, in the order of the expected list, and the
  later registration binds nothing. When mtp and adb make up the count, the assembly
  logs the missing usb_mass_storage and binds adb.
\<close>

theorem bind_functions_at_most_once_witness:
  "(case run example_state
           (map Register [example_module ''usb_mass_storage'' 1] @ Attach 7 #
            map Register [example_module ''adb'' 2, example_module ''mtp'' 3]) of
      Inr s2 \<Rightarrow> binds s2 | Inl err \<Rightarrow> 0) = 1
   \<and> (case run example_state
           (map Register [example_module ''usb_mass_storage'' 1] @ Attach 7 #
            map Register [example_module ''adb'' 2, example_module ''mtp'' 3]) of
      Inr s2 \<Rightarrow> calls s2 | Inl err \<Rightarrow> []) =
       [Pr_info_register ''usb_mass_storage'', Pr_info_register ''adb'', Bind_functions,
        Bind_config (example_module ''usb_mass_storage'' 1) (Some 7),
        Bind_config (example_module ''adb'' 2) (Some 7), Pr_info_register ''mtp'']
   \<and> (case run example_state
           (map Register [example_module ''usb_mass_storage'' 1, example_module ''adb'' 2] @
            Attach 7 # map Register [example_module ''mtp'' 3]) of
      Inr s2 \<Rightarrow> calls s2 | Inl err \<Rightarrow> []) =
       [Pr_info_register ''usb_mass_storage'', Pr_info_register ''adb'', Bind_functions,
        Bind_config (example_module ''usb_mass_storage'' 1) (Some 7),
        Bind_config (example_module ''adb'' 2) (Some 7), Pr_info_register ''mtp'']
   \<and> (case run example_state
           (map Register [example_module ''mtp'' 3] @
            Attach 7 # map Register [example_module ''adb'' 2]) of
      Inr s2 \<Rightarrow> calls s2 | Inl err \<Rightarrow> []) =
       [Pr_info_register ''mtp'', Pr_info_register ''adb'', Bind_functions,
        Pr_err_not_found ''usb_mass_storage'',
        Bind_config (example_module ''adb'' 2) (Some 7)]"
  using bind_functions_at_most_once [of example_state example_gate_dev
      "[example_module ''usb_mass_storage'' 1]"
      "[example_module ''adb'' 2, example_module ''mtp'' 3]" 7]
    bind_functions_at_most_once [of example_state example_gate_dev
      "[example_module ''usb_mass_storage'' 1, example_module ''adb'' 2]"
      "[example_module ''mtp'' 3]" 7]
    bind_functions_at_most_once [of example_state example_gate_dev
      "[example_module ''mtp'' 3]" "[example_module ''adb'' 2]" 7]
  by (simp add: example_defs gate_defs)

text \<open>
  Claim C9. The gate tests equality. Once the count exceeds the expected count, no
  later event, register or attach, enters \<^verbatim>\<open>bind_functions\<close>: the only calls the
  driver makes for the rest of the session are the log lines of the register calls, so
  no \<^verbatim>\<open>bind_config\<close> callback runs. (As long as the C \<^verbatim>\<open>int\<close> counter does not
  overflow.)
\<close>

theorem no_bind_once_count_exceeds:
  assumes "g_android_dev s = Some dev"
    and "num_functions dev < sint (g_registered_function_count s)"
    and "sint (g_registered_function_count s) + int (length es) < 2147483648"
  shows "\<exists>s1. run s es = Inr s1 \<and> calls s1 = calls s @ register_lines es \<and> binds s1 = binds s"
proof -
  from run_no_bind_beyond [OF assms] obtain s1 where
    "run s es = Inr s1" "calls s1 = calls s @ register_lines es" by blast
  then show ?thesis by (simp add: binds_def binds_register_lines)
qed

text \<open>
  A duplicate registration takes the count to three before the attach; the attach and
  a fourth registration bind nothing.
\<close>

theorem no_bind_once_count_exceeds_witness:
  "run example_state (map Register [example_module ''adb'' 1, example_module ''adb'' 2,
        example_module ''usb_mass_storage'' 3]) = Inr example_overfull
   \<and> (case run example_overfull [Attach 7, Register (example_module ''mtp'' 4)] of
        Inr s1 \<Rightarrow> calls s1 | Inl err \<Rightarrow> []) =
       [Pr_info_register ''adb'', Pr_info_register ''adb'',
        Pr_info_register ''usb_mass_storage'', Pr_info_register ''mtp'']"
  using no_bind_once_count_exceeds [of example_overfull example_gate_dev
      "[Attach 7, Register (example_module ''mtp'' 4)]"]
  by (simp add: example_overfull_def example_defs gate_defs)






section \<open>The runtime toggle\<close>

lemma c_not_simps [simp]:
  "c_not 0 = 1" "c_not 1 = 0" "c_not (c_not (c_not x)) = c_not x"
  "(c_not x = 0) = (x \<noteq> 0)" "(c_not x = 1) = (x = 0)"
  "(c_not x \<noteq> c_not y) = ((x = 0) \<noteq> (y = 0))"
  by (auto simp: c_not_def)

lemma get_product_id_cdev [simp]: "get_product_id (dev\<lparr>cdev := x\<rparr>) fs = get_product_id dev fs"
  by (simp add: get_product_id_def split: option.splits)

lemma enable_change_plain:
  assumes "fi < length (config_functions s)"
    and "(enable \<noteq> 0) \<noteq> (disabled (config_functions s ! fi) = 0)"
    and "\<not> (CONFIG_USB_ANDROID_RNDIS kc \<and> name (config_functions s ! fi) = ''rndis'')"
  shows "android_enable_function kc s fi enable =
     update_product_id (s\<lparr>config_functions :=
        (config_functions s)[fi := (config_functions s ! fi)\<lparr>disabled := c_not enable\<rparr>]\<rparr>)"
  using assms
  by (auto simp: android_enable_function_def Let_def rndis_branch_def usb_function_set_enabled_def)

lemma enable_change_rndis:
  assumes "fi < length (config_functions s)"
    and "(enable \<noteq> 0) \<noteq> (disabled (config_functions s ! fi) = 0)"
    and "CONFIG_USB_ANDROID_RNDIS kc" and "name (config_functions s ! fi) = ''rndis''"
    and "g_android_dev s = Some dev" and "cdev dev = Some cd"
  shows "android_enable_function kc s fi enable =
     update_product_id (s\<lparr>g_android_dev :=
          Some (dev\<lparr>cdev := Some (cd\<lparr>desc := (desc cd)\<lparr>bDeviceClass := rndis_class kc enable\<rparr>\<rparr>)\<rparr>),
        config_functions := map (rndis_conflict enable)
          ((config_functions s)[fi := (config_functions s ! fi)\<lparr>disabled := c_not enable\<rparr>])\<rparr>)"
  using assms
  by (auto simp: android_enable_function_def Let_def rndis_branch_def usb_function_set_enabled_def)

lemma profile_matches_view:
  "profile_matches p fs =
     list_all (\<lambda>(nm, en). (nm \<in> set (take (nat (p_num_functions p)) (p_functions p))) = en)
       (enabled_view fs)"
  by (simp add: profile_matches_def enabled_view_def list_all_iff)

lemma get_product_id_view:
  assumes "enabled_view fs = enabled_view fs'"
  shows "get_product_id dev fs = get_product_id dev fs'"
proof -
  have "(\<lambda>p. profile_matches p fs) = (\<lambda>p. profile_matches p fs')"
    by (rule ext) (simp add: profile_matches_view assms)
  then have "product_id_loop ps fs = product_id_loop ps fs'" for ps
    by (simp add: product_id_loop_find)
  then show ?thesis
    by (simp add: get_product_id_def cong: option.case_cong)
qed

lemma update_product_id_props:
  assumes "g_android_dev s = Some dev"
  shows "\<exists>s1 dev1. update_product_id s = Inr s1 \<and> g_android_dev s1 = Some dev1
     \<and> config_functions s1 = config_functions s
     \<and> device_desc s1 = (device_desc s)
           \<lparr>idProduct := word_of_int (get_product_id dev (config_functions s))\<rparr>
     \<and> get_product_id dev1 = get_product_id dev
     \<and> map_option (bDeviceClass \<circ> desc) (cdev dev1) = map_option (bDeviceClass \<circ> desc) (cdev dev)
     \<and> map_option (idProduct \<circ> desc) (cdev dev1)
         = map_option (\<lambda>cd. word_of_int (get_product_id dev (config_functions s))) (cdev dev)"
proof (cases "cdev dev")
  case None
  then show ?thesis using assms by (simp add: update_product_id_def Let_def)
next
  case (Some cd)
  have "get_product_id (dev\<lparr>cdev := Some (cd\<lparr>desc := (desc cd)
      \<lparr>idProduct := word_of_int (get_product_id dev (config_functions s))\<rparr>\<rparr>)\<rparr>) = get_product_id dev"
    by (rule ext) simp
  then show ?thesis using assms Some by (simp add: update_product_id_def Let_def)
qed

lemma toggle_plain:
  assumes "fi < length (config_functions s)" and "g_android_dev s = Some dev"
    and "disabled (config_functions s ! fi) = 0"
    and "idProduct (device_desc s) = word_of_int (get_product_id dev (config_functions s))"
    and "\<not> (CONFIG_USB_ANDROID_RNDIS kc \<and> name (config_functions s ! fi) = ''rndis'')"
  shows "\<exists>s2 dev2. toggle kc s fi = Inr s2 \<and> g_android_dev s2 = Some dev2
     \<and> device_desc s2 = device_desc s
     \<and> config_functions s2 = config_functions s
     \<and> map_option (bDeviceClass \<circ> desc) (cdev dev2) = map_option (bDeviceClass \<circ> desc) (cdev dev)
     \<and> map_option (idProduct \<circ> desc) (cdev dev2)
         = map_option (\<lambda>cd. idProduct (device_desc s)) (cdev dev)"
proof -
  let ?fs = "config_functions s"
  let ?f = "?fs ! fi"
  let ?s0 = "s\<lparr>config_functions := ?fs[fi := ?f\<lparr>disabled := c_not 0\<rparr>]\<rparr>"
  have e1: "android_enable_function kc s fi 0 = update_product_id ?s0"
    using assms(3) by (intro enable_change_plain [OF assms(1) _ assms(5)]) simp
  have "g_android_dev ?s0 = Some dev" using assms(2) by simp
  from update_product_id_props [OF this] obtain s1 dev1 where
    u1: "update_product_id ?s0 = Inr s1" and d1: "g_android_dev s1 = Some dev1"
    and f1: "config_functions s1 = config_functions ?s0"
    and dd1: "device_desc s1 = (device_desc ?s0)
        \<lparr>idProduct := word_of_int (get_product_id dev (config_functions ?s0))\<rparr>"
    and p1: "get_product_id dev1 = get_product_id dev"
    and c1: "map_option (bDeviceClass \<circ> desc) (cdev dev1) = map_option (bDeviceClass \<circ> desc) (cdev dev)"
    by blast
  let ?s1 = "s1\<lparr>config_functions :=
      (config_functions s1)[fi := (config_functions s1 ! fi)\<lparr>disabled := c_not 1\<rparr>]\<rparr>"
  have l1: "fi < length (config_functions s1)" using f1 assms(1) by simp
  have e2: "android_enable_function kc s1 fi 1 = update_product_id ?s1"
    using f1 assms(1,5) by (intro enable_change_plain [OF l1]) simp_all
  have rest: "config_functions ?s1 = ?fs"
    using f1 assms(1,3) by (simp add: list_update_same_conv)
  have "g_android_dev ?s1 = Some dev1" using d1 by simp
  from update_product_id_props [OF this] obtain s2 dev2 where
    u2: "update_product_id ?s1 = Inr s2" and d2: "g_android_dev s2 = Some dev2"
    and f2: "config_functions s2 = config_functions ?s1"
    and dd2: "device_desc s2 = (device_desc ?s1)
        \<lparr>idProduct := word_of_int (get_product_id dev1 (config_functions ?s1))\<rparr>"
    and c2: "map_option (bDeviceClass \<circ> desc) (cdev dev2) = map_option (bDeviceClass \<circ> desc) (cdev dev1)"
    and i2: "map_option (idProduct \<circ> desc) (cdev dev2)
         = map_option (\<lambda>cd. word_of_int (get_product_id dev1 (config_functions ?s1))) (cdev dev1)"
    by blast
  have pid: "word_of_int (get_product_id dev1 (config_functions ?s1)) = idProduct (device_desc s)"
    using rest p1 assms(4) by simp
  have "device_desc s2 = device_desc s"
    using dd2 dd1 pid by simp
  moreover have "map_option (idProduct \<circ> desc) (cdev dev2)
         = map_option (\<lambda>cd. idProduct (device_desc s)) (cdev dev)"
    using i2 pid c1 by (cases "cdev dev1"; cases "cdev dev") auto
  moreover have "toggle kc s fi = Inr s2" using e1 u1 e2 u2 by (simp add: toggle_def)
  ultimately show ?thesis using d2 f2 rest c1 c2 by auto
qed

lemma rndis_conflict_name [simp]: "name (rndis_conflict e g) = name g"
  by (simp add: rndis_conflict_def usb_function_set_enabled_def)

lemma rndis_conflict_rndis [simp]: "name g = ''rndis'' \<Longrightarrow> rndis_conflict e g = g"
  by (simp add: rndis_conflict_def)

lemma rndis_round_trip_view:
  assumes "fi < length fs" and "name (fs ! fi) = ''rndis''" and "disabled (fs ! fi) = 0"
    and "\<forall>g \<in> set fs. name g = ''usb_mass_storage'' \<or> name g = ''mtp'' \<or> name g = ''adb''
           \<longrightarrow> disabled g \<noteq> 0"
  shows "enabled_view (map (rndis_conflict 1)
           ((map (rndis_conflict 0) (fs[fi := (fs ! fi)\<lparr>disabled := 1\<rparr>]))
              [fi := (map (rndis_conflict 0) (fs[fi := (fs ! fi)\<lparr>disabled := 1\<rparr>]) ! fi)
                       \<lparr>disabled := 0\<rparr>]))
         = enabled_view fs"
proof (rule nth_equalityI)
  show "length (enabled_view (map (rndis_conflict 1)
           ((map (rndis_conflict 0) (fs[fi := (fs ! fi)\<lparr>disabled := 1\<rparr>]))
              [fi := (map (rndis_conflict 0) (fs[fi := (fs ! fi)\<lparr>disabled := 1\<rparr>]) ! fi)
                       \<lparr>disabled := 0\<rparr>]))) = length (enabled_view fs)"
    by (simp add: enabled_view_def)
next
  fix j
  assume "j < length (enabled_view (map (rndis_conflict 1)
           ((map (rndis_conflict 0) (fs[fi := (fs ! fi)\<lparr>disabled := 1\<rparr>]))
              [fi := (map (rndis_conflict 0) (fs[fi := (fs ! fi)\<lparr>disabled := 1\<rparr>]) ! fi)
                       \<lparr>disabled := 0\<rparr>])))"
  then have j: "j < length fs" by (simp add: enabled_view_def)
  then have m: "fs ! j \<in> set fs" by simp
  show "enabled_view (map (rndis_conflict 1)
           ((map (rndis_conflict 0) (fs[fi := (fs ! fi)\<lparr>disabled := 1\<rparr>]))
              [fi := (map (rndis_conflict 0) (fs[fi := (fs ! fi)\<lparr>disabled := 1\<rparr>]) ! fi)
                       \<lparr>disabled := 0\<rparr>])) ! j = enabled_view fs ! j"
  proof (cases "j = fi")
    case True
    then show ?thesis using assms(1,2,3) by (simp add: enabled_view_def)
  next
    case False
    then show ?thesis using j m assms(4)
      by (auto simp: enabled_view_def rndis_conflict_def usb_function_set_enabled_def)
  qed
qed

lemma toggle_rndis:
  assumes "fi < length (config_functions s)" and "g_android_dev s = Some dev"
    and "disabled (config_functions s ! fi) = 0"
    and "idProduct (device_desc s) = word_of_int (get_product_id dev (config_functions s))"
    and "CONFIG_USB_ANDROID_RNDIS kc" and "name (config_functions s ! fi) = ''rndis''"
    and "cdev dev = Some cd" and "bDeviceClass (desc cd) = rndis_class kc 1"
    and "\<forall>g \<in> set (config_functions s).
           name g = ''usb_mass_storage'' \<or> name g = ''mtp'' \<or> name g = ''adb''
           \<longrightarrow> disabled g \<noteq> 0"
  shows "\<exists>s2 dev2. toggle kc s fi = Inr s2 \<and> g_android_dev s2 = Some dev2
     \<and> device_desc s2 = device_desc s
     \<and> enabled_view (config_functions s2) = enabled_view (config_functions s)
     \<and> map_option (bDeviceClass \<circ> desc) (cdev dev2) = map_option (bDeviceClass \<circ> desc) (cdev dev)
     \<and> map_option (idProduct \<circ> desc) (cdev dev2)
         = map_option (\<lambda>cd. idProduct (device_desc s)) (cdev dev)"
proof -
  let ?fs = "config_functions s"
  let ?fsA = "map (rndis_conflict 0) (?fs[fi := (?fs ! fi)\<lparr>disabled := c_not 0\<rparr>])"
  let ?devA = "dev\<lparr>cdev := Some (cd\<lparr>desc := (desc cd)\<lparr>bDeviceClass := rndis_class kc 0\<rparr>\<rparr>)\<rparr>"
  let ?s0 = "s\<lparr>g_android_dev := Some ?devA, config_functions := ?fsA\<rparr>"
  have e1: "android_enable_function kc s fi 0 = update_product_id ?s0"
    using assms(3) by (intro enable_change_rndis [OF assms(1) _ assms(5,6,2,7)]) simp
  have "g_android_dev ?s0 = Some ?devA" by simp
  from update_product_id_props [OF this] obtain s1 dev1 where
    u1: "update_product_id ?s0 = Inr s1" and d1: "g_android_dev s1 = Some dev1"
    and f1: "config_functions s1 = config_functions ?s0"
    and dd1: "device_desc s1 = (device_desc ?s0)
        \<lparr>idProduct := word_of_int (get_product_id ?devA (config_functions ?s0))\<rparr>"
    and p1: "get_product_id dev1 = get_product_id ?devA"
    and c1: "map_option (bDeviceClass \<circ> desc) (cdev dev1) = map_option (bDeviceClass \<circ> desc) (cdev ?devA)"
    by blast
  from c1 obtain cd1 where k1: "cdev dev1 = Some cd1" by auto
  let ?fsB = "map (rndis_conflict 1)
      ((config_functions s1)[fi := (config_functions s1 ! fi)\<lparr>disabled := c_not 1\<rparr>])"
  let ?devB = "dev1\<lparr>cdev := Some (cd1\<lparr>desc := (desc cd1)\<lparr>bDeviceClass := rndis_class kc 1\<rparr>\<rparr>)\<rparr>"
  let ?s1 = "s1\<lparr>g_android_dev := Some ?devB, config_functions := ?fsB\<rparr>"
  have l1: "fi < length (config_functions s1)" using f1 assms(1) by simp
  have n1: "name (config_functions s1 ! fi) = ''rndis''" using f1 assms(1,6) by simp
  have x1: "disabled (config_functions s1 ! fi) = 1" using f1 assms(1,6) by simp
  have e2: "android_enable_function kc s1 fi 1 = update_product_id ?s1"
    using x1 by (intro enable_change_rndis [OF l1 _ assms(5) n1 d1 k1]) simp
  have view: "enabled_view ?fsB = enabled_view ?fs"
    using rndis_round_trip_view [OF assms(1,6,3,9)] f1 by simp
  have "g_android_dev ?s1 = Some ?devB" by simp
  from update_product_id_props [OF this] obtain s2 dev2 where
    u2: "update_product_id ?s1 = Inr s2" and d2: "g_android_dev s2 = Some dev2"
    and f2: "config_functions s2 = config_functions ?s1"
    and dd2: "device_desc s2 = (device_desc ?s1)
        \<lparr>idProduct := word_of_int (get_product_id ?devB (config_functions ?s1))\<rparr>"
    and c2: "map_option (bDeviceClass \<circ> desc) (cdev dev2) = map_option (bDeviceClass \<circ> desc) (cdev ?devB)"
    and i2: "map_option (idProduct \<circ> desc) (cdev dev2)
         = map_option (\<lambda>cd. word_of_int (get_product_id ?devB (config_functions ?s1))) (cdev ?devB)"
    by blast
  have "get_product_id ?devB (config_functions ?s1) = get_product_id dev ?fs"
    using p1 get_product_id_view [OF view] by simp
  then have pid: "word_of_int (get_product_id ?devB (config_functions ?s1)) = idProduct (device_desc s)"
    using assms(4) by simp
  have "device_desc s2 = device_desc s"
    using dd2 dd1 pid by simp
  moreover have "map_option (idProduct \<circ> desc) (cdev dev2)
         = map_option (\<lambda>cd. idProduct (device_desc s)) (cdev dev)"
    using i2 pid assms(7) by simp
  moreover have "map_option (bDeviceClass \<circ> desc) (cdev dev2) = map_option (bDeviceClass \<circ> desc) (cdev dev)"
    using c2 assms(7,8) by simp
  moreover have "toggle kc s fi = Inr s2" using e1 u1 e2 u2 by (simp add: toggle_def)
  moreover have "enabled_view (config_functions s2) = enabled_view ?fs" using f2 view by simp
  ultimately show ?thesis using d2 by blast
qed

lemmas toggle_defs = android_enable_function_def rndis_branch_def update_product_id_def
  get_product_id_def product_has_function_def usb_function_set_enabled_def rndis_conflict_def
  rndis_class_def c_not_def toggle_def USB_CLASS_PER_INTERFACE_def USB_CLASS_COMM_def
  USB_CLASS_WIRELESS_CONTROLLER_def Let_def

lemmas toggle_example_defs = example_kc_plain_def example_kc_rndis_def example_toggle_dev_def
  example_toggle_state_def example_all_off_def example_unbound_def example_fn_def

text \<open>
  Claim C7. \<^verbatim>\<open>android_enable_function(f, enable)\<close> with \<^verbatim>\<open>enable\<close> equal to the
  current state of \<open>f\<close> changes nothing: the whole state is returned as it was, so
  the descriptors (product id, device class) and every function's flag are unchanged,
  and no call is made, in particular no \<^verbatim>\<open>usb_composite_force_reset\<close>.
\<close>

theorem enable_same_state_is_noop:
  assumes "fi < length (config_functions s)"
    and "(enable \<noteq> 0) = (disabled (config_functions s ! fi) = 0)"
  shows "android_enable_function kc s fi enable = Inr s"
  using assms by (auto simp: android_enable_function_def Let_def)

text \<open>Enabling what is enabled (with 1 and with 5), disabling what is disabled.\<close>

theorem enable_same_state_is_noop_witness:
  "android_enable_function example_kc_rndis example_toggle_state 0 1 = Inr example_toggle_state
   \<and> android_enable_function example_kc_rndis example_toggle_state 1 5 = Inr example_toggle_state
   \<and> android_enable_function example_kc_plain
        (example_toggle_state\<lparr>config_functions := [example_fn ''adb'' False]\<rparr>) 0 0
       = Inr (example_toggle_state\<lparr>config_functions := [example_fn ''adb'' False]\<rparr>)"
  using enable_same_state_is_noop [of 0 example_toggle_state 1 example_kc_rndis]
    enable_same_state_is_noop [of 1 example_toggle_state 5 example_kc_rndis]
    enable_same_state_is_noop [of 0
      "example_toggle_state\<lparr>config_functions := [example_fn ''adb'' False]\<rparr>" 0 example_kc_plain]
  by (simp add: toggle_example_defs)

text \<open>
  Claim C4, as the code has it. With no framework handle (\<^verbatim>\<open>dev->cdev\<close> is \<^verbatim>\<open>NULL\<close>)
  and a request that differs from the current state of \<open>f\<close>, for a function that does
  not take the RNDIS branch: the flag is flipped, the new product id is written into
  \<^verbatim>\<open>device_desc\<close> and nowhere else, and \<^verbatim>\<open>usb_composite_force_reset\<close> is still called,
  with the \<^verbatim>\<open>NULL\<close> handle. The test \<^verbatim>\<open>if (dev->cdev)\<close> guards the copy into the
  handle's descriptor only.
\<close>

theorem enable_without_cdev:
  assumes "fi < length (config_functions s)"
    and "g_android_dev s = Some dev" and "cdev dev = None"
    and "(enable \<noteq> 0) \<noteq> (disabled (config_functions s ! fi) = 0)"
    and "\<not> (CONFIG_USB_ANDROID_RNDIS kc \<and> name (config_functions s ! fi) = ''rndis'')"
  shows "android_enable_function kc s fi enable =
     Inr (s\<lparr>config_functions :=
              (config_functions s)[fi := (config_functions s ! fi)\<lparr>disabled := c_not enable\<rparr>],
            device_desc := (device_desc s)\<lparr>idProduct := word_of_int (get_product_id dev
              ((config_functions s)[fi := (config_functions s ! fi)\<lparr>disabled := c_not enable\<rparr>]))\<rparr>,
            calls := calls s @ [Usb_composite_force_reset None]\<rparr>)"
  unfolding enable_change_plain [OF assms(1,4,5)]
  using assms(2,3) by (simp add: update_product_id_def Let_def)

text \<open>
  The claim as stated fails: disabling adb with no handle attached writes the id 3 and
  calls \<^verbatim>\<open>usb_composite_force_reset(NULL)\<close>; and in a build with the RNDIS option,
  disabling rndis with no handle attached dereferences \<^verbatim>\<open>NULL\<close> before any id is
  written.
\<close>

theorem enable_without_cdev_counterexample:
  "cdev (example_toggle_dev\<lparr>cdev := None\<rparr>) = None
   \<and> android_enable_function example_kc_plain example_unbound 1 0 =
       Inr (example_unbound\<lparr>
         config_functions := [example_fn ''rndis'' True, example_fn ''adb'' False],
         device_desc := \<lparr>idProduct = 3, bDeviceClass = 0\<rparr>,
         calls := [Usb_composite_force_reset None]\<rparr>)
   \<and> android_enable_function example_kc_rndis example_unbound 0 0 = Inl NullDeref"
  by (simp add: toggle_example_defs toggle_defs)

text \<open>The same call in a build with the RNDIS option: adb does not take that branch.\<close>

theorem enable_without_cdev_witness:
  "android_enable_function example_kc_rndis example_unbound 1 0 =
       Inr (example_unbound\<lparr>
         config_functions := [example_fn ''rndis'' True, example_fn ''adb'' False],
         device_desc := \<lparr>idProduct = 3, bDeviceClass = 0\<rparr>,
         calls := [Usb_composite_force_reset None]\<rparr>)"
  using enable_without_cdev [of 1 example_unbound "example_toggle_dev\<lparr>cdev := None\<rparr>" 0
      example_kc_rndis]
  by (simp add: toggle_example_defs toggle_defs)

text \<open>
  Claim C8, as the code has it. Let \<open>f\<close> be enabled, and let \<^verbatim>\<open>device_desc\<close> carry the
  product id that \<^verbatim>\<open>get_product_id\<close> selects for the current enabled-set. If \<open>f\<close>
  takes the RNDIS branch, let moreover the handle be attached with the RNDIS device
  class, and usb_mass_storage, mtp and adb be disabled. Then disabling \<open>f\<close> and
  enabling it again succeeds and restores \<^verbatim>\<open>device_desc\<close>, the enabled-set and the
  device class of the handle's descriptor, whose product id is that of \<^verbatim>\<open>device_desc\<close>.
\<close>

theorem toggle_restores_descriptor:
  assumes "fi < length (config_functions s)" and "g_android_dev s = Some dev"
    and "disabled (config_functions s ! fi) = 0"
    and "idProduct (device_desc s) = word_of_int (get_product_id dev (config_functions s))"
    and "CONFIG_USB_ANDROID_RNDIS kc \<and> name (config_functions s ! fi) = ''rndis'' \<longrightarrow>
           (\<exists>cd. cdev dev = Some cd \<and> bDeviceClass (desc cd) = rndis_class kc 1)
           \<and> (\<forall>g \<in> set (config_functions s).
                 name g = ''usb_mass_storage'' \<or> name g = ''mtp'' \<or> name g = ''adb''
                 \<longrightarrow> disabled g \<noteq> 0)"
  shows "\<exists>s2 dev2. toggle kc s fi = Inr s2 \<and> g_android_dev s2 = Some dev2
     \<and> device_desc s2 = device_desc s
     \<and> enabled_view (config_functions s2) = enabled_view (config_functions s)
     \<and> map_option (bDeviceClass \<circ> desc) (cdev dev2) = map_option (bDeviceClass \<circ> desc) (cdev dev)
     \<and> map_option (idProduct \<circ> desc) (cdev dev2)
         = map_option (\<lambda>cd. idProduct (device_desc s)) (cdev dev)"
proof (cases "CONFIG_USB_ANDROID_RNDIS kc \<and> name (config_functions s ! fi) = ''rndis''")
  case True
  with assms(5) obtain cd where "cdev dev = Some cd" "bDeviceClass (desc cd) = rndis_class kc 1"
    and "\<forall>g \<in> set (config_functions s).
           name g = ''usb_mass_storage'' \<or> name g = ''mtp'' \<or> name g = ''adb''
           \<longrightarrow> disabled g \<noteq> 0"
    by blast
  with True show ?thesis by (intro toggle_rndis [OF assms(1-4)]) auto
next
  case False
  from toggle_plain [OF assms(1-4) False] obtain s2 dev2 where
    "toggle kc s fi = Inr s2" "g_android_dev s2 = Some dev2" "device_desc s2 = device_desc s"
    "config_functions s2 = config_functions s"
    "map_option (bDeviceClass \<circ> desc) (cdev dev2) = map_option (bDeviceClass \<circ> desc) (cdev dev)"
    "map_option (idProduct \<circ> desc) (cdev dev2) = map_option (\<lambda>cd. idProduct (device_desc s)) (cdev dev)"
    by blast
  then show ?thesis by simp
qed

text \<open>
  The claim as stated fails. With the RNDIS option, enabling rndis and then adb from
  the state where both are disabled leads to the state where both are enabled and the
  id 2 is selected for that. From there, disabling rndis enables adb, enabling rndis
  disables adb, and the id ends as 3. And without the option, from a state whose descriptor carries the
  default id 1 rather than the id of its enabled-set: toggling adb ends with the id 2.
\<close>

theorem toggle_restores_descriptor_counterexample:
  "(case android_enable_function example_kc_rndis example_all_off 0 1 of
      Inr s1 \<Rightarrow>
        (case android_enable_function example_kc_rndis s1 1 1 of
           Inr s2 \<Rightarrow> s2\<lparr>calls := []\<rparr> = example_toggle_state
         | Inl err \<Rightarrow> False)
    | Inl err \<Rightarrow> False)
   \<and> idProduct (device_desc example_toggle_state)
     = word_of_int (get_product_id example_toggle_dev (config_functions example_toggle_state))
   \<and> idProduct (device_desc example_toggle_state) = 2
   \<and> (case toggle example_kc_rndis example_toggle_state 0 of
        Inr s2 \<Rightarrow> idProduct (device_desc s2) | Inl err \<Rightarrow> 0) = 3
   \<and> (case toggle example_kc_rndis example_toggle_state 0 of
        Inr s2 \<Rightarrow> config_functions s2 | Inl err \<Rightarrow> [])
       = [example_fn ''rndis'' True, example_fn ''adb'' False]
   \<and> idProduct (device_desc (example_toggle_state\<lparr>device_desc :=
          \<lparr>idProduct = 1, bDeviceClass = 0\<rparr>\<rparr>)) = 1
   \<and> (case toggle example_kc_plain (example_toggle_state\<lparr>device_desc :=
          \<lparr>idProduct = 1, bDeviceClass = 0\<rparr>\<rparr>) 1 of
        Inr s2 \<Rightarrow> idProduct (device_desc s2) | Inl err \<Rightarrow> 0) = 2"
  by (simp add: toggle_example_defs toggle_defs)

text \<open>
  Toggling adb without the RNDIS option, and toggling rndis with it while adb is
  disabled: the descriptors are as before.
\<close>

theorem toggle_restores_descriptor_witness:
  "(case toggle example_kc_plain example_toggle_state 1 of
      Inr s2 \<Rightarrow> device_desc s2 = device_desc example_toggle_state
        \<and> map_option cdev (g_android_dev s2) = Some (cdev example_toggle_dev)
    | Inl err \<Rightarrow> False)
   \<and> (case toggle example_kc_rndis
        (example_toggle_state\<lparr>config_functions := [example_fn ''rndis'' True, example_fn ''adb'' False],
           device_desc := \<lparr>idProduct = 3, bDeviceClass = 0\<rparr>\<rparr>) 0 of
      Inr s2 \<Rightarrow> device_desc s2 = \<lparr>idProduct = 3, bDeviceClass = 0\<rparr>
        \<and> map_option cdev (g_android_dev s2) = Some (Some \<lparr>desc = \<lparr>idProduct = 3, bDeviceClass = 2\<rparr>\<rparr>)
    | Inl err \<Rightarrow> False)"
  using toggle_restores_descriptor [of 1 example_toggle_state example_toggle_dev example_kc_plain]
    toggle_restores_descriptor [of 0
      "example_toggle_state\<lparr>config_functions := [example_fn ''rndis'' True, example_fn ''adb'' False],
           device_desc := \<lparr>idProduct = 3, bDeviceClass = 0\<rparr>\<rparr>"
      example_toggle_dev example_kc_rndis]
  by (simp add: toggle_example_defs toggle_defs)

end
